theory Spec2Isabelle
  imports Main
begin

section \<open>The contact list of \<^verbatim>\<open>src/App.tsx\<close>\<close>

text \<open>
  The component \<^verbatim>\<open>App\<close> owns four React state variables (\<^verbatim>\<open>contacts\<close>,
  \<^verbatim>\<open>loading\<close>, \<^verbatim>\<open>loadingMore\<close>, \<^verbatim>\<open>hasMoreData\<close>) and two handlers,
  \<^verbatim>\<open>fetchContacts\<close> and \<^verbatim>\<open>loadMoreContacts\<close>. Both handlers suspend: the first at
  \<^verbatim>\<open>await fetch(...)\<close>, the second in a \<^verbatim>\<open>setTimeout\<close> callback. The embedding passes
  the state explicitly and splits each handler at its suspension point into the part that
  runs at the call and the part that runs at the resumption. JavaScript runs every such part
  to completion, so each part is one atomic state transformer.

  \<^verbatim>\<open>console.error\<close> and \<^verbatim>\<open>Alert.alert\<close> write no state variable and are left out.
\<close>

subsection \<open>Values delivered by \<^verbatim>\<open>response.json()\<close>\<close>

text \<open>
  The parsed body has the static type \<^verbatim>\<open>any\<close>. Numbers are modelled as integers, the
  case in which \<^verbatim>\<open>Number.prototype.toString\<close> prints plain decimal digits; an object is the
  list of its own properties (property names distinct, as after \<^verbatim>\<open>JSON.parse\<close>).
\<close>

datatype json =
    JNull
  | JBool bool
  | JNum int
  | JStr string
  | JArr "json list"
  | JObj "(string \<times> json) list"

text \<open>The result of a property read that may find nothing: \<open>None\<close> is \<^verbatim>\<open>undefined\<close>.\<close>

type_synonym jsval = "json option"

subsection \<open>Decimal notation\<close>

definition digit_char :: "nat \<Rightarrow> char" where
  "digit_char d = ''0123456789'' ! d"

fun string_of_nat :: "nat \<Rightarrow> string" where
  "string_of_nat n =
     (if n < 10 then [digit_char n]
      else string_of_nat (n div 10) @ [digit_char (n mod 10)])"

declare string_of_nat.simps [simp del]

definition string_of_int :: "int \<Rightarrow> string" where
  "string_of_int i =
     (if i < 0 then CHR ''-'' # string_of_nat (nat (- i)) else string_of_nat (nat i))"

subsection \<open>\<^verbatim>\<open>toString\<close> on a parsed value\<close>

text \<open>
  \<open>join_strs\<close> is \<^verbatim>\<open>Array.prototype.join\<close> with the default separator, over element
  renderings that may have thrown (\<open>None\<close>).
\<close>

fun join_strs :: "string option list \<Rightarrow> string option" where
  "join_strs [] = Some []"
| "join_strs [x] = x"
| "join_strs (x # y # ys) =
     (case x of
        None \<Rightarrow> None
      | Some s \<Rightarrow> (case join_strs (y # ys) of None \<Rightarrow> None | Some r \<Rightarrow> Some (s @ '','' @ r)))"

text \<open>
  \<^verbatim>\<open>v.toString()\<close> for a parsed value \<open>v\<close>; \<open>None\<close> is a thrown \<^verbatim>\<open>TypeError\<close>.
  \<^verbatim>\<open>null\<close> has no properties. An array prints its elements joined by commas, with
  \<^verbatim>\<open>null\<close> elements printed as the empty string. An object inherits
  \<^verbatim>\<open>Object.prototype.toString\<close> unless an own property named \<^verbatim>\<open>toString\<close> shadows it,
  and a parsed property is never callable.
\<close>

fun js_toString :: "json \<Rightarrow> string option" where
  "js_toString JNull = None"
| "js_toString (JBool b) = Some (if b then ''true'' else ''false'')"
| "js_toString (JNum n) = Some (string_of_int n)"
| "js_toString (JStr s) = Some s"
| "js_toString (JArr xs) =
     join_strs (map (\<lambda>x. if x = JNull then Some [] else js_toString x) xs)"
| "js_toString (JObj kvs) =
     (if ''toString'' \<in> fst ` set kvs then None else Some ''[object Object]'')"

subsection \<open>Contact records\<close>

text \<open>
  The interface \<^verbatim>\<open>User\<close>. The \<^verbatim>\<open>id\<close> is always the result of a \<^verbatim>\<open>toString\<close> call
  or a string literal; \<^verbatim>\<open>name\<close> and \<^verbatim>\<open>phone\<close> are whatever the parsed element held
  (possibly \<^verbatim>\<open>undefined\<close>), since the declared type \<^verbatim>\<open>string\<close> is not checked at run
  time.
\<close>

record User =
  id_field :: string
  name :: jsval
  phone :: jsval

definition mk_user :: "string \<Rightarrow> string \<Rightarrow> string \<Rightarrow> User" where
  "mk_user i n p = \<lparr>id_field = i, name = Some (JStr n), phone = Some (JStr p)\<rparr>"

definition mockContacts :: "User list" where
  "mockContacts =
     [ mk_user ''1'' ''John Smith'' ''(123) 456-7890'',
       mk_user ''2'' ''Sarah Johnson'' ''(234) 567-8901'',
       mk_user ''3'' ''Michael Brown'' ''(345) 678-9012'',
       mk_user ''4'' ''Emily Davis'' ''(456) 789-0123'',
       mk_user ''5'' ''David Wilson'' ''(567) 890-1234'',
       mk_user ''6'' ''Lisa Taylor'' ''(678) 901-2345'',
       mk_user ''7'' ''Robert Anderson'' ''(789) 012-3456'',
       mk_user ''8'' ''Jennifer Thomas'' ''(890) 123-4567'',
       mk_user ''9'' ''Daniel Jackson'' ''(901) 234-5678'',
       mk_user ''10'' ''Karen White'' ''(012) 345-6789'' ]"

subsection \<open>The body of the \<^verbatim>\<open>try\<close> block of \<^verbatim>\<open>fetchContacts\<close>\<close>

text \<open>
  What the two \<^verbatim>\<open>await\<close>s deliver: \<^verbatim>\<open>fetch\<close> rejects with a message, or resolves to a
  response with a status whose \<^verbatim>\<open>json()\<close> either throws or yields a parsed value.
\<close>

datatype body = SyntaxError string | Parsed json

datatype fetch_outcome = Rejected string | Response nat body

datatype fetch_error = HttpError nat | TransportError string | TypeError

definition ok :: "nat \<Rightarrow> bool" where
  "ok status = (200 \<le> status \<and> status \<le> 299)"

text \<open>
  The arrow function passed to \<^verbatim>\<open>data.map\<close>. \<^verbatim>\<open>user.id\<close> throws on \<^verbatim>\<open>null\<close> and is
  \<^verbatim>\<open>undefined\<close> on every other value that is not an object with an own \<^verbatim>\<open>id\<close>; the
  \<^verbatim>\<open>toString\<close> call on \<^verbatim>\<open>undefined\<close> throws. \<open>None\<close> is the thrown \<^verbatim>\<open>TypeError\<close>.
\<close>

fun user_of :: "json \<Rightarrow> User option" where
  "user_of (JObj kvs) =
     (case map_of kvs ''id'' of
        None \<Rightarrow> None
      | Some v \<Rightarrow>
          (case js_toString v of
             None \<Rightarrow> None
           | Some s \<Rightarrow>
               Some \<lparr>id_field = s, name = map_of kvs ''name'', phone = map_of kvs ''phone''\<rparr>))"
| "user_of _ = None"

text \<open>\<^verbatim>\<open>data.map(...)\<close>: only an array has a callable \<^verbatim>\<open>map\<close>.\<close>

fun map_users :: "json \<Rightarrow> User list option" where
  "map_users (JArr xs) = those (map user_of xs)"
| "map_users _ = None"

fun fetchContacts_try :: "fetch_outcome \<Rightarrow> fetch_error + User list" where
  "fetchContacts_try (Rejected msg) = Inl (TransportError msg)"
| "fetchContacts_try (Response status b) =
     (if \<not> ok status then Inl (HttpError status)
      else case b of
             SyntaxError msg \<Rightarrow> Inl (TransportError msg)
           | Parsed data \<Rightarrow>
               (case map_users data of None \<Rightarrow> Inl TypeError | Some cs \<Rightarrow> Inr cs))"

subsection \<open>The state and the two handlers\<close>

text \<open>
  Besides the four state variables the record holds what is suspended: the number of
  \<^verbatim>\<open>fetchContacts\<close> executions waiting at \<^verbatim>\<open>await\<close>, and for each scheduled
  \<^verbatim>\<open>setTimeout\<close> callback, in scheduling order, the \<^verbatim>\<open>contacts.length\<close> of the array its
  closure captured (the callback reads the captured array only through its length).
  A handler is the closure of the latest render, so at its call it reads the state of the
  moment; the callback it schedules keeps the values of that call.
\<close>

record list_state =
  contacts :: "User list"
  loading :: bool
  loadingMore :: bool
  hasMoreData :: bool
  inFlight :: nat
  timers :: "nat list"

definition fetchContacts_begin :: "list_state \<Rightarrow> list_state" where
  "fetchContacts_begin s = s\<lparr>loading := True, inFlight := Suc (inFlight s)\<rparr>"

definition fetchContacts_resume :: "fetch_outcome \<Rightarrow> list_state \<Rightarrow> list_state" where
  "fetchContacts_resume out s =
     (case fetchContacts_try out of
        Inr newContacts \<Rightarrow>
          s\<lparr>contacts := newContacts, hasMoreData := False, loading := False,
            inFlight := inFlight s - 1\<rparr>
      | Inl err \<Rightarrow>
          s\<lparr>contacts := mockContacts, hasMoreData := False, loading := False,
            inFlight := inFlight s - 1\<rparr>)"

definition additionalContacts :: "nat \<Rightarrow> User list" where
  "additionalContacts currentCount =
     map (\<lambda>i. \<lparr>id_field = string_of_nat (currentCount + i + 1),
               name = Some (JStr (''Additional User '' @ string_of_nat (currentCount + i + 1))),
               phone = Some (JStr (''(999) '' @ string_of_nat i @ string_of_nat i
                         @ string_of_nat i @ ''-'' @ string_of_nat i @ string_of_nat i
                         @ string_of_nat i @ string_of_nat i))\<rparr>)
       [0..<5]"

definition loadMoreContacts :: "list_state \<Rightarrow> list_state" where
  "loadMoreContacts s =
     (if \<not> hasMoreData s \<or> loadingMore s then s
      else s\<lparr>loadingMore := True, timers := timers s @ [length (contacts s)]\<rparr>)"

text \<open>
  The \<^verbatim>\<open>setTimeout\<close> callback. \<open>currentCount\<close> is the captured length; the functional
  update \<^verbatim>\<open>setContacts(prev => ...)\<close> appends to the collection of the moment.
\<close>

definition timeout_callback :: "nat \<Rightarrow> list_state \<Rightarrow> list_state" where
  "timeout_callback currentCount s =
     s\<lparr>contacts := contacts s @ additionalContacts currentCount,
       loadingMore := False,
       hasMoreData :=
         (if currentCount + length (additionalContacts currentCount) \<ge> 30 then False
          else hasMoreData s)\<rparr>"

subsection \<open>The session as a transition system\<close>

text \<open>
  \<open>mounted\<close> holds the initial values of the \<^verbatim>\<open>useState\<close> calls; the effect hook then
  calls \<^verbatim>\<open>fetchContacts\<close> once. Afterwards the state changes only through the events
  below. While \<^verbatim>\<open>loading\<close> is true the component renders the spinner alone, so the list
  and its callbacks exist only when \<^verbatim>\<open>loading\<close> is false; the retry button belongs to
  the empty list; \<^verbatim>\<open>onEndReached\<close> is \<^verbatim>\<open>loadMoreContacts\<close> when \<^verbatim>\<open>hasMoreData\<close> holds and
  \<^verbatim>\<open>null\<close> otherwise. All timers have the same delay and fire in scheduling order.
\<close>

definition mounted :: list_state where
  "mounted = \<lparr>contacts = [], loading = True, loadingMore = False, hasMoreData = True,
              inFlight = 0, timers = []\<rparr>"

definition initial_state :: list_state where
  "initial_state = fetchContacts_begin mounted"

datatype event =
    Resolve fetch_outcome
  | Refresh
  | Retry
  | EndReached
  | Timeout
  | Press nat

fun enabled :: "event \<Rightarrow> list_state \<Rightarrow> bool" where
  "enabled (Resolve out) s = (0 < inFlight s)"
| "enabled Refresh s = (\<not> loading s)"
| "enabled Retry s = (\<not> loading s \<and> contacts s = [])"
| "enabled EndReached s = (\<not> loading s)"
| "enabled Timeout s = (timers s \<noteq> [])"
| "enabled (Press i) s = (\<not> loading s \<and> i < length (contacts s))"

fun apply_event :: "event \<Rightarrow> list_state \<Rightarrow> list_state" where
  "apply_event (Resolve out) s = fetchContacts_resume out s"
| "apply_event Refresh s = fetchContacts_begin s"
| "apply_event Retry s = fetchContacts_begin s"
| "apply_event EndReached s = (if hasMoreData s then loadMoreContacts s else s)"
| "apply_event Timeout s =
     (case timers s of
        [] \<Rightarrow> s
      | currentCount # rest \<Rightarrow> timeout_callback currentCount (s\<lparr>timers := rest\<rparr>))"
| "apply_event (Press i) s = s"

text \<open>A run of events from a state; \<open>None\<close> when some event is not possible where it occurs.\<close>

fun run :: "event list \<Rightarrow> list_state \<Rightarrow> list_state option" where
  "run [] s = Some s"
| "run (e # es) s = (if enabled e s then run es (apply_event e s) else None)"

text \<open>What a resumption of \<^verbatim>\<open>fetchContacts\<close> stores in \<^verbatim>\<open>contacts\<close>, on either path.\<close>

definition fetched_records :: "fetch_outcome \<Rightarrow> User list" where
  "fetched_records out =
     (case fetchContacts_try out of Inr cs \<Rightarrow> cs | Inl err \<Rightarrow> mockContacts)"

text \<open>The events at which a \<^verbatim>\<open>fetchContacts\<close> execution completes.\<close>

fun completes :: "event \<Rightarrow> bool" where
  "completes (Resolve out) = True"
| "completes _ = False"

text \<open>Pairwise distinct ids, and the completions that store such a collection.\<close>

definition unique_ids :: "User list \<Rightarrow> bool" where
  "unique_ids cs = distinct (map id_field cs)"

fun distinct_response :: "event \<Rightarrow> bool" where
  "distinct_response (Resolve out) = unique_ids (fetched_records out)"
| "distinct_response _ = True"

section \<open>Auxiliary facts\<close>

subsection \<open>Mapping the response\<close>

lemma those_map_Some:
  "those (map f xs) = Some ys \<Longrightarrow>
     length ys = length xs \<and> (\<forall>i<length xs. f (xs ! i) = Some (ys ! i))"
proof (induction xs arbitrary: ys)
  case Nil
  then show ?case by simp
next
  case (Cons x xs)
  from Cons.prems obtain y zs where
    fx: "f x = Some y" and rest: "those (map f xs) = Some zs" and ys: "ys = y # zs"
    by (auto split: option.splits)
  from Cons.IH [OF rest] have
    len: "length zs = length xs" and nth: "\<forall>i<length xs. f (xs ! i) = Some (zs ! i)"
    by simp_all
  show ?case
  proof (intro conjI allI impI)
    show "length ys = length (x # xs)" using len ys by simp
  next
    fix i assume "i < length (x # xs)"
    then show "f ((x # xs) ! i) = Some (ys ! i)"
      using fx nth ys by (cases i) simp_all
  qed
qed

lemma user_of_Some:
  "user_of u = Some c \<Longrightarrow>
     \<exists>kvs v. u = JObj kvs \<and> map_of kvs ''id'' = Some v \<and> js_toString v = Some (id_field c)
            \<and> name c = map_of kvs ''name'' \<and> phone c = map_of kvs ''phone''"
  by (cases u) (auto split: option.splits)

lemma try_Inr_iff:
  "fetchContacts_try out = Inr cs \<longleftrightarrow>
     (\<exists>status xs. out = Response status (Parsed (JArr xs)) \<and> ok status
                  \<and> those (map user_of xs) = Some cs)"
proof (cases out)
  case (Rejected msg)
  then show ?thesis by simp
next
  case (Response status b)
  show ?thesis
  proof (cases b)
    case (SyntaxError msg)
    with Response show ?thesis by simp
  next
    case (Parsed data)
    with Response show ?thesis
      by (cases data) (auto split: option.splits)
  qed
qed

lemma try_Inl_kinds:
  "fetchContacts_try (Rejected msg) = Inl (TransportError msg)"
  "\<not> ok status \<Longrightarrow> fetchContacts_try (Response status b) = Inl (HttpError status)"
  "ok status \<Longrightarrow>
     fetchContacts_try (Response status (SyntaxError msg)) = Inl (TransportError msg)"
  "ok status \<Longrightarrow> map_users data = None \<Longrightarrow>
     fetchContacts_try (Response status (Parsed data)) = Inl TypeError"
  by simp_all

subsection \<open>The handlers, field by field\<close>

lemma resume_fields:
  "contacts (fetchContacts_resume out s) = fetched_records out"
  "loading (fetchContacts_resume out s) = False"
  "hasMoreData (fetchContacts_resume out s) = False"
  "loadingMore (fetchContacts_resume out s) = loadingMore s"
  "timers (fetchContacts_resume out s) = timers s"
  "inFlight (fetchContacts_resume out s) = inFlight s - 1"
  by (simp_all add: fetchContacts_resume_def fetched_records_def split: sum.splits)

lemma begin_fields:
  "contacts (fetchContacts_begin s) = contacts s"
  "loading (fetchContacts_begin s) = True"
  "hasMoreData (fetchContacts_begin s) = hasMoreData s"
  "loadingMore (fetchContacts_begin s) = loadingMore s"
  "timers (fetchContacts_begin s) = timers s"
  "inFlight (fetchContacts_begin s) = Suc (inFlight s)"
  by (simp_all add: fetchContacts_begin_def)

lemma length_additionalContacts: "length (additionalContacts n) = 5"
  by (simp add: additionalContacts_def)

lemma callback_fields:
  "contacts (timeout_callback n s) = contacts s @ additionalContacts n"
  "loading (timeout_callback n s) = loading s"
  "loadingMore (timeout_callback n s) = False"
  "hasMoreData (timeout_callback n s) = (hasMoreData s \<and> n + 5 < 30)"
  "inFlight (timeout_callback n s) = inFlight s"
  "timers (timeout_callback n s) = timers s"
  by (auto simp add: timeout_callback_def length_additionalContacts)

lemma digit_strings:
  "string_of_nat 0 = ''0''" "string_of_nat 1 = ''1''" "string_of_nat 2 = ''2''"
  "string_of_nat 3 = ''3''" "string_of_nat 4 = ''4''" "string_of_nat (Suc 0) = ''1''"
  by (simp_all add: string_of_nat.simps digit_char_def)

lemma additionalContacts_explicit:
  "additionalContacts n =
     map (\<lambda>(k, p). \<lparr>id_field = string_of_nat (n + k),
                    name = Some (JStr (''Additional User '' @ string_of_nat (n + k))),
                    phone = Some (JStr p)\<rparr>)
       [(1, ''(999) 000-0000''), (2, ''(999) 111-1111''), (3, ''(999) 222-2222''),
        (4, ''(999) 333-3333''), (5, ''(999) 444-4444'')]"
proof -
  have "[0..<5] = [0, 1, 2, 3, 4::nat]" by code_simp
  then show ?thesis
    by (auto simp add: additionalContacts_def digit_strings
          intro!: arg_cong [where f = string_of_nat])
qed

lemma hasMoreData_step: "\<not> hasMoreData s \<Longrightarrow> \<not> hasMoreData (apply_event e s)"
  by (cases e)
    (auto simp: resume_fields begin_fields callback_fields loadMoreContacts_def
       split: list.splits)

lemma hasMoreData_run: "run es s = Some t \<Longrightarrow> \<not> hasMoreData s \<Longrightarrow> \<not> hasMoreData t"
  by (induction es arbitrary: s) (auto split: if_splits dest: hasMoreData_step)

subsection \<open>Runs and the invariant of a session\<close>

lemma run_snoc:
  "run (es @ [e]) s =
     (case run es s of
        None \<Rightarrow> None
      | Some t \<Rightarrow> if enabled e t then Some (apply_event e t) else None)"
  by (induction es arbitrary: s) simp_all

lemma run_snoc_SomeE:
  assumes "run (es @ [e]) s = Some u"
  obtains t where "run es s = Some t" and "enabled e t" and "u = apply_event e t"
  using assms by (auto simp: run_snoc split: option.splits if_splits)

lemma session_invariant:
  assumes "run es initial_state = Some s"
  shows "timers s = [] \<and> \<not> loadingMore s
       \<and> inFlight s = (if loading s then 1 else 0)
       \<and> (if list_ex completes es
           then \<not> hasMoreData s
              \<and> (\<exists>out. Resolve out \<in> set es \<and> contacts s = fetched_records out)
           else hasMoreData s \<and> loading s \<and> contacts s = [])"
  using assms
proof (induction es arbitrary: s rule: rev_induct)
  case Nil
  then show ?case
    by (auto simp: initial_state_def mounted_def fetchContacts_begin_def)
next
  case (snoc e es)
  from snoc.prems obtain t where
    t: "run es initial_state = Some t" and en: "enabled e t" and s: "s = apply_event e t"
    by (rule run_snoc_SomeE)
  note ih = snoc.IH [OF t]
  show ?case
  proof (cases e)
    case (Resolve out)
    with ih en s show ?thesis
      by (auto simp: resume_fields split: if_splits)
  next
    case Refresh
    with ih en s show ?thesis
      by (auto simp: begin_fields split: if_splits)
  next
    case Retry
    with ih en s show ?thesis
      by (auto simp: begin_fields split: if_splits)
  next
    case EndReached
    with ih en s show ?thesis
      by (auto split: if_splits)
  next
    case Timeout
    with ih en show ?thesis by simp
  next
    case (Press i)
    with ih en s show ?thesis
      by (auto split: if_splits)
  qed
qed

subsection \<open>While a pagination callback is pending\<close>

text \<open>
  Between an admitted call and its callback \<^verbatim>\<open>loadingMore\<close> stays set, so no further
  callback is scheduled; \<^verbatim>\<open>hasMoreData\<close> survives exactly as long as no fetch completes.
\<close>

lemma page_pending_step:
  assumes "e \<noteq> Timeout" and "loadingMore s"
  shows "loadingMore (apply_event e s) \<and> timers (apply_event e s) = timers s
       \<and> hasMoreData (apply_event e s) = (hasMoreData s \<and> \<not> completes e)
       \<and> (\<not> completes e \<longrightarrow> contacts (apply_event e s) = contacts s)"
  using assms
  by (cases e) (auto simp: resume_fields begin_fields loadMoreContacts_def)

lemma page_pending_run:
  assumes "run es s = Some t" and "Timeout \<notin> set es" and "loadingMore s"
  shows "loadingMore t \<and> timers t = timers s
       \<and> hasMoreData t = (hasMoreData s \<and> \<not> list_ex completes es)
       \<and> (\<not> list_ex completes es \<longrightarrow> contacts t = contacts s)"
  using assms
proof (induction es arbitrary: s)
  case Nil
  then show ?case by simp
next
  case (Cons e es)
  from Cons.prems have en: "enabled e s" and r: "run es (apply_event e s) = Some t"
    and ne: "e \<noteq> Timeout" and nts: "Timeout \<notin> set es"
    by (auto split: if_splits)
  note st = page_pending_step [OF ne Cons.prems(3)]
  from st have lm: "loadingMore (apply_event e s)" by simp
  note ih = Cons.IH [OF r nts lm]
  from ih st show ?case by auto
qed

section \<open>The properties of the specification\<close>

subsection \<open>Failure and fallback\<close>

text \<open>
  C1. Whenever the \<^verbatim>\<open>try\<close> block of \<^verbatim>\<open>fetchContacts\<close> throws (a response that is not
  2xx, a rejected request, a body that does not parse, or a \<^verbatim>\<open>TypeError\<close> while mapping),
  the execution leaves \<^verbatim>\<open>contacts\<close> equal to the fixed mock list of ten records with ids
  \<^verbatim>\<open>"1"\<close> to \<^verbatim>\<open>"10"\<close>, from John Smith to Karen White, and \<^verbatim>\<open>hasMoreData\<close> false.
\<close>

theorem fallback_on_failure:
  assumes "fetchContacts_try out = Inl err"
  shows "contacts (fetchContacts_resume out s) = mockContacts
       \<and> \<not> hasMoreData (fetchContacts_resume out s)
       \<and> length mockContacts = 10
       \<and> map id_field mockContacts = map string_of_nat [1..<11]
       \<and> name (hd mockContacts) = Some (JStr ''John Smith'')
       \<and> name (last mockContacts) = Some (JStr ''Karen White'')"
proof -
  have ids: "map id_field mockContacts = map string_of_nat [1..<11]"
    by code_simp
  from assms have "fetchContacts_resume out s
      = s\<lparr>contacts := mockContacts, hasMoreData := False, loading := False,
          inFlight := inFlight s - 1\<rparr>"
    by (simp add: fetchContacts_resume_def)
  then show ?thesis
    using ids by (simp add: mockContacts_def mk_user_def)
qed

theorem fallback_on_failure_witness:
  "fetchContacts_try (Response 404 (Parsed (JArr []))) = Inl (HttpError 404)
   \<and> fetchContacts_try (Rejected ''Network request failed'')
       = Inl (TransportError ''Network request failed'')
   \<and> fetchContacts_try (Response 200 (SyntaxError ''Unexpected token''))
       = Inl (TransportError ''Unexpected token'')
   \<and> contacts (fetchContacts_resume (Response 404 (Parsed (JArr []))) initial_state)
       = mockContacts
   \<and> contacts (fetchContacts_resume (Rejected ''Network request failed'') initial_state)
       = mockContacts
   \<and> contacts (fetchContacts_resume (Response 200 (SyntaxError ''Unexpected token''))
                 initial_state)
       = mockContacts
   \<and> \<not> hasMoreData (fetchContacts_resume (Response 404 (Parsed (JArr []))) initial_state)"
proof -
  have h1: "fetchContacts_try (Response 404 (Parsed (JArr []))) = Inl (HttpError 404)"
    by (simp add: ok_def)
  have h2: "fetchContacts_try (Rejected ''Network request failed'')
              = Inl (TransportError ''Network request failed'')"
    by simp
  have h3: "fetchContacts_try (Response 200 (SyntaxError ''Unexpected token''))
              = Inl (TransportError ''Unexpected token'')"
    by (simp add: ok_def)
  show ?thesis
    using h1 h2 h3 fallback_on_failure [OF h1, of initial_state]
      fallback_on_failure [OF h2, of initial_state]
      fallback_on_failure [OF h3, of initial_state]
    by simp
qed

subsection \<open>Success\<close>

text \<open>
  C2. When the \<^verbatim>\<open>try\<close> block completes on a response whose body is an array, the stored
  collection has the length of that array, and at every index the element is an object with
  an \<^verbatim>\<open>id\<close> whose \<^verbatim>\<open>toString()\<close> is the record's id, while \<^verbatim>\<open>name\<close> and \<^verbatim>\<open>phone\<close> are
  the element's own (possibly missing) properties, unchanged.
\<close>

theorem success_maps_response:
  assumes "fetchContacts_try (Response status (Parsed (JArr xs))) = Inr cs"
  shows "contacts (fetchContacts_resume (Response status (Parsed (JArr xs))) s) = cs
       \<and> length cs = length xs
       \<and> (\<forall>i<length xs. \<exists>kvs v.
            xs ! i = JObj kvs \<and> map_of kvs ''id'' = Some v
            \<and> js_toString v = Some (id_field (cs ! i))
            \<and> name (cs ! i) = map_of kvs ''name''
            \<and> phone (cs ! i) = map_of kvs ''phone'')"
proof -
  from assms [unfolded try_Inr_iff] have th: "those (map user_of xs) = Some cs"
    by auto
  from those_map_Some [OF th] have
    len: "length cs = length xs" and nth: "\<forall>i<length xs. user_of (xs ! i) = Some (cs ! i)"
    by simp_all
  have "contacts (fetchContacts_resume (Response status (Parsed (JArr xs))) s) = cs"
    using assms by (simp add: fetchContacts_resume_def)
  moreover have "\<forall>i<length xs. \<exists>kvs v.
            xs ! i = JObj kvs \<and> map_of kvs ''id'' = Some v
            \<and> js_toString v = Some (id_field (cs ! i))
            \<and> name (cs ! i) = map_of kvs ''name''
            \<and> phone (cs ! i) = map_of kvs ''phone''"
    using nth user_of_Some by blast
  ultimately show ?thesis using len by blast
qed

theorem success_maps_response_witness:
  "fetchContacts_try (Response 200 (Parsed (JArr
       [JObj [(''id'', JNum 7), (''name'', JStr ''Ann''), (''phone'', JStr ''555-0100'')],
        JObj [(''name'', JNum 3), (''id'', JStr ''x9'')]])))
     = Inr [\<lparr>id_field = ''7'', name = Some (JStr ''Ann''), phone = Some (JStr ''555-0100'')\<rparr>,
            \<lparr>id_field = ''x9'', name = Some (JNum 3), phone = None\<rparr>]
   \<and> contacts (fetchContacts_resume (Response 200 (Parsed (JArr
       [JObj [(''id'', JNum 7), (''name'', JStr ''Ann''), (''phone'', JStr ''555-0100'')],
        JObj [(''name'', JNum 3), (''id'', JStr ''x9'')]]))) initial_state)
     = [\<lparr>id_field = ''7'', name = Some (JStr ''Ann''), phone = Some (JStr ''555-0100'')\<rparr>,
        \<lparr>id_field = ''x9'', name = Some (JNum 3), phone = None\<rparr>]"
proof -
  have h: "fetchContacts_try (Response 200 (Parsed (JArr
       [JObj [(''id'', JNum 7), (''name'', JStr ''Ann''), (''phone'', JStr ''555-0100'')],
        JObj [(''name'', JNum 3), (''id'', JStr ''x9'')]])))
     = Inr [\<lparr>id_field = ''7'', name = Some (JStr ''Ann''), phone = Some (JStr ''555-0100'')\<rparr>,
            \<lparr>id_field = ''x9'', name = Some (JNum 3), phone = None\<rparr>]"
    by (simp add: ok_def string_of_int_def string_of_nat.simps digit_char_def)
  from success_maps_response [OF h, of initial_state] h show ?thesis by blast
qed

subsection \<open>Pagination\<close>

text \<open>
  C3. In a state with \<^verbatim>\<open>hasMoreData\<close> true and \<^verbatim>\<open>loadingMore\<close> false,
  \<^verbatim>\<open>loadMoreContacts\<close> schedules one callback that captured the current length \<open>n\<close> of
  the collection, sets \<^verbatim>\<open>loadingMore\<close> and changes no record. In whatever state \<open>t\<close> the
  callback runs, in particular right after the call, it appends exactly five records, with
  ids the decimal forms of \<open>n + 1\<close> to \<open>n + 5\<close>, names \<^verbatim>\<open>Additional User <id>\<close> and
  phones \<^verbatim>\<open>(999) 000-0000\<close> to \<^verbatim>\<open>(999) 444-4444\<close>.
\<close>

theorem loadMore_appends_five:
  assumes "hasMoreData s" and "\<not> loadingMore s"
  shows "timers (loadMoreContacts s) = timers s @ [length (contacts s)]
       \<and> loadingMore (loadMoreContacts s)
       \<and> contacts (loadMoreContacts s) = contacts s
       \<and> contacts (timeout_callback (length (contacts s)) t) =
           contacts t @
           map (\<lambda>(k, p). \<lparr>id_field = string_of_nat (length (contacts s) + k),
                          name = Some (JStr (''Additional User ''
                                   @ string_of_nat (length (contacts s) + k))),
                          phone = Some (JStr p)\<rparr>)
             [(1, ''(999) 000-0000''), (2, ''(999) 111-1111''), (3, ''(999) 222-2222''),
              (4, ''(999) 333-3333''), (5, ''(999) 444-4444'')]"
proof -
  have lm: "loadMoreContacts s
              = s\<lparr>loadingMore := True, timers := timers s @ [length (contacts s)]\<rparr>"
    using assms by (simp add: loadMoreContacts_def)
  have "contacts (timeout_callback (length (contacts s)) t)
          = contacts t @ additionalContacts (length (contacts s))"
    by (simp add: callback_fields)
  then show ?thesis
    by (simp add: lm additionalContacts_explicit)
qed

theorem loadMore_appends_five_witness:
  "hasMoreData (mounted\<lparr>contacts := mockContacts, loading := False\<rparr>)
   \<and> \<not> loadingMore (mounted\<lparr>contacts := mockContacts, loading := False\<rparr>)
   \<and> contacts (timeout_callback 10
        (loadMoreContacts (mounted\<lparr>contacts := mockContacts, loading := False\<rparr>))) =
       mockContacts @
       [mk_user ''11'' ''Additional User 11'' ''(999) 000-0000'',
        mk_user ''12'' ''Additional User 12'' ''(999) 111-1111'',
        mk_user ''13'' ''Additional User 13'' ''(999) 222-2222'',
        mk_user ''14'' ''Additional User 14'' ''(999) 333-3333'',
        mk_user ''15'' ''Additional User 15'' ''(999) 444-4444'']"
proof -
  let ?s = "mounted\<lparr>contacts := mockContacts, loading := False\<rparr>"
  have h1: "hasMoreData ?s" by (simp add: mounted_def)
  have h2: "\<not> loadingMore ?s" by (simp add: mounted_def)
  have len: "length mockContacts = 10"
    by (simp add: mockContacts_def)
  have strs: "string_of_nat 11 = ''11''" "string_of_nat 12 = ''12''"
    "string_of_nat 13 = ''13''" "string_of_nat 14 = ''14''" "string_of_nat 15 = ''15''"
    by (simp_all add: string_of_nat.simps digit_char_def)
  show ?thesis
    using loadMore_appends_five [OF h1 h2, of "loadMoreContacts ?s"] h1 h2
    by (simp add: len strs mk_user_def)
qed

text \<open>
  C4. When \<^verbatim>\<open>hasMoreData\<close> is false or \<^verbatim>\<open>loadingMore\<close> is true, \<^verbatim>\<open>loadMoreContacts\<close>
  returns at its guard: the collection, the three flags and the scheduled callbacks are
  all as before.
\<close>

theorem loadMore_noop:
  assumes "\<not> hasMoreData s \<or> loadingMore s"
  shows "loadMoreContacts s = s
       \<and> contacts (loadMoreContacts s) = contacts s
       \<and> loading (loadMoreContacts s) = loading s
       \<and> loadingMore (loadMoreContacts s) = loadingMore s
       \<and> hasMoreData (loadMoreContacts s) = hasMoreData s
       \<and> timers (loadMoreContacts s) = timers s"
  using assms by (auto simp add: loadMoreContacts_def)

theorem loadMore_noop_witness:
  "\<not> hasMoreData (fetchContacts_resume (Rejected ''offline'') initial_state)
   \<and> loadMoreContacts (fetchContacts_resume (Rejected ''offline'') initial_state)
       = fetchContacts_resume (Rejected ''offline'') initial_state
   \<and> loadingMore (loadMoreContacts mounted)
   \<and> loadMoreContacts (loadMoreContacts mounted) = loadMoreContacts mounted"
proof -
  have h1: "\<not> hasMoreData (fetchContacts_resume (Rejected ''offline'') initial_state)"
    by (simp add: resume_fields)
  have h2: "loadingMore (loadMoreContacts mounted)"
    by (simp add: loadMoreContacts_def mounted_def)
  from loadMore_noop [OF disjI1, OF h1] loadMore_noop [OF disjI2, OF h2] h1 h2
  show ?thesis by blast
qed

text \<open>
  C5, as stated, fails: the callback only ever clears \<^verbatim>\<open>hasMoreData\<close>, and so does every
  completion of \<^verbatim>\<open>fetchContacts\<close>. A call admitted at ten records, a refresh that
  completes before the timer, and then the callback leave fifteen records and
  \<^verbatim>\<open>hasMoreData\<close> false, although \<open>10 + 5 < 30\<close>.
\<close>

theorem hasMoreData_after_page_counterexample:
  "hasMoreData (mounted\<lparr>contacts := mockContacts, loading := False\<rparr>)
   \<and> \<not> loadingMore (mounted\<lparr>contacts := mockContacts, loading := False\<rparr>)
   \<and> length (contacts (mounted\<lparr>contacts := mockContacts, loading := False\<rparr>)) = 10
   \<and> run [EndReached, Refresh, Resolve (Rejected ''offline''), Timeout]
        (mounted\<lparr>contacts := mockContacts, loading := False\<rparr>)
       = Some \<lparr>contacts = mockContacts @ additionalContacts 10,
               loading = False, loadingMore = False, hasMoreData = False,
               inFlight = 0, timers = []\<rparr>
   \<and> length (mockContacts @ additionalContacts 10) = 15
   \<and> hasMoreData \<lparr>contacts = mockContacts @ additionalContacts 10,
               loading = False, loadingMore = False, hasMoreData = False,
               inFlight = 0, timers = []\<rparr>
       \<noteq> ((10::nat) + 5 < 30)"
proof -
  have lenm: "length mockContacts = 10" by (simp add: mockContacts_def)
  show ?thesis
    by (simp add: mounted_def loadMoreContacts_def fetchContacts_begin_def
          fetchContacts_resume_def timeout_callback_def length_additionalContacts lenm)
qed


text \<open>
  C5, amended. An admitted \<^verbatim>\<open>loadMoreContacts\<close> call at collection length \<open>n\<close> schedules a
  callback holding \<open>n\<close>. In whatever state \<open>t\<close> that callback runs it adds five records
  and leaves \<^verbatim>\<open>hasMoreData\<close> true exactly when it was true in \<open>t\<close> and \<open>n + 5 < 30\<close>.
  With no other callback pending, after any events \<open>es\<close> that precede the timer,
  \<^verbatim>\<open>hasMoreData\<close> is true exactly when no fetch completed among \<open>es\<close> and \<open>n + 5 < 30\<close>;
  if none completed the collection has \<open>n + 5\<close> records. At \<open>n = 27\<close> that is 32 records
  and \<^verbatim>\<open>hasMoreData\<close> false.
\<close>

theorem hasMoreData_after_page:
  assumes "hasMoreData s" and "\<not> loadingMore s"
  shows "timers (loadMoreContacts s) = timers s @ [length (contacts s)]
       \<and> hasMoreData (timeout_callback (length (contacts s)) t)
           = (hasMoreData t \<and> length (contacts s) + 5 < 30)
       \<and> length (contacts (timeout_callback (length (contacts s)) t))
           = length (contacts t) + 5
       \<and> (timers s = [] \<longrightarrow> Timeout \<notin> set es \<longrightarrow>
            run (es @ [Timeout]) (loadMoreContacts s) = Some u \<longrightarrow>
              hasMoreData u = (\<not> list_ex completes es \<and> length (contacts s) + 5 < 30)
              \<and> (\<not> list_ex completes es \<longrightarrow> length (contacts u) = length (contacts s) + 5))"
proof -
  let ?n = "length (contacts s)"
  have lm: "loadMoreContacts s = s\<lparr>loadingMore := True, timers := timers s @ [?n]\<rparr>"
    using assms by (simp add: loadMoreContacts_def)
  have a: "timers (loadMoreContacts s) = timers s @ [?n]"
    by (simp add: lm)
  have b: "hasMoreData (timeout_callback ?n t) = (hasMoreData t \<and> ?n + 5 < 30)"
    by (simp add: callback_fields)
  have c: "length (contacts (timeout_callback ?n t)) = length (contacts t) + 5"
    by (simp add: callback_fields length_additionalContacts)
  have d: "hasMoreData u = (\<not> list_ex completes es \<and> ?n + 5 < 30)
         \<and> (\<not> list_ex completes es \<longrightarrow> length (contacts u) = ?n + 5)"
    if none: "timers s = []" and nt: "Timeout \<notin> set es"
      and r: "run (es @ [Timeout]) (loadMoreContacts s) = Some u"
  proof -
    from r obtain p where
      p: "run es (loadMoreContacts s) = Some p" and u: "u = apply_event Timeout p"
      by (rule run_snoc_SomeE)
    have "loadingMore (loadMoreContacts s)" by (simp add: lm)
    from page_pending_run [OF p nt this] have
      tp: "timers p = [?n]"
      and hp: "hasMoreData p = (\<not> list_ex completes es)"
      and cp: "\<not> list_ex completes es \<longrightarrow> contacts p = contacts s"
      using assms(1) none by (simp_all add: lm)
    from u tp have u': "u = timeout_callback ?n (p\<lparr>timers := []\<rparr>)" by simp
    show ?thesis
      using hp cp by (auto simp: u' callback_fields length_additionalContacts)
  qed
  from a b c d show ?thesis by blast
qed

theorem hasMoreData_after_page_witness:
  "hasMoreData (mounted\<lparr>contacts := mockContacts @ mockContacts @ take 7 mockContacts,
                         loading := False\<rparr>)
   \<and> \<not> loadingMore (mounted\<lparr>contacts := mockContacts @ mockContacts @ take 7 mockContacts,
                         loading := False\<rparr>)
   \<and> timers (mounted\<lparr>contacts := mockContacts @ mockContacts @ take 7 mockContacts,
                     loading := False\<rparr>) = []
   \<and> length (contacts (mounted\<lparr>contacts := mockContacts @ mockContacts @ take 7 mockContacts,
                         loading := False\<rparr>)) = 27
   \<and> Timeout \<notin> set [Press 0, EndReached]
   \<and> \<not> list_ex completes [Press 0, EndReached]
   \<and> timers (loadMoreContacts
        (mounted\<lparr>contacts := mockContacts @ mockContacts @ take 7 mockContacts,
                  loading := False\<rparr>)) = [27]
   \<and> run ([Press 0, EndReached] @ [Timeout]) (loadMoreContacts
        (mounted\<lparr>contacts := mockContacts @ mockContacts @ take 7 mockContacts,
                  loading := False\<rparr>))
       = Some \<lparr>contacts = (mockContacts @ mockContacts @ take 7 mockContacts)
                            @ additionalContacts 27,
               loading = False, loadingMore = False, hasMoreData = False,
               inFlight = 0, timers = []\<rparr>
   \<and> \<not> hasMoreData \<lparr>contacts = (mockContacts @ mockContacts @ take 7 mockContacts)
                            @ additionalContacts 27,
               loading = False, loadingMore = False, hasMoreData = False,
               inFlight = 0, timers = []\<rparr>
   \<and> length (contacts \<lparr>contacts = (mockContacts @ mockContacts @ take 7 mockContacts)
                            @ additionalContacts 27,
               loading = False, loadingMore = False, hasMoreData = False,
               inFlight = 0, timers = []\<rparr>) = 32"
proof -
  let ?s = "mounted\<lparr>contacts := mockContacts @ mockContacts @ take 7 mockContacts,
                      loading := False\<rparr>"
  let ?u = "\<lparr>contacts = (mockContacts @ mockContacts @ take 7 mockContacts)
                            @ additionalContacts 27,
               loading = False, loadingMore = False, hasMoreData = False,
               inFlight = 0, timers = []\<rparr>"
  have h1: "hasMoreData ?s" by (simp add: mounted_def)
  have h2: "\<not> loadingMore ?s" by (simp add: mounted_def)
  have h3: "timers ?s = []" by (simp add: mounted_def)
  have h4: "Timeout \<notin> set [Press 0, EndReached]" by simp
  have h5: "\<not> list_ex completes [Press 0, EndReached]" by simp
  have len: "length (contacts ?s) = 27" by (simp add: mockContacts_def)
  have lenm: "length mockContacts = 10" by (simp add: mockContacts_def)
  have r: "run ([Press 0, EndReached] @ [Timeout]) (loadMoreContacts ?s) = Some ?u"
    by (simp add: loadMoreContacts_def mounted_def timeout_callback_def lenm
          length_additionalContacts)
  from hasMoreData_after_page [OF h1 h2, of ?u "[Press 0, EndReached]" ?u]
  have "timers (loadMoreContacts ?s) = timers ?s @ [length (contacts ?s)]"
    and "hasMoreData ?u = (\<not> list_ex completes [Press 0, EndReached]
                            \<and> length (contacts ?s) + 5 < 30)"
    and "length (contacts ?u) = length (contacts ?s) + 5"
    using h3 h4 h5 r by blast+
  then show ?thesis
    using h1 h2 h3 h4 h5 len r by (simp only: len h3) simp
qed

subsection \<open>Sessions\<close>

text \<open>
  C6. In every state a session can reach from the mounted component, by any sequence of
  fetch completions, refreshes, retries, end-of-list signals, timer completions and presses,
  \<^verbatim>\<open>loading\<close> and \<^verbatim>\<open>loadingMore\<close> are not both true.
\<close>

theorem never_both_loading:
  assumes "run es initial_state = Some s"
  shows "\<not> (loading s \<and> loadingMore s)"
  using session_invariant [OF assms] by simp

theorem never_both_loading_witness:
  "run [Resolve (Rejected ''offline''), EndReached, Press 9, Refresh] initial_state
     = Some (fetchContacts_begin (fetchContacts_resume (Rejected ''offline'') initial_state))
   \<and> \<not> (loading (fetchContacts_begin (fetchContacts_resume (Rejected ''offline'') initial_state))
        \<and> loadingMore
             (fetchContacts_begin (fetchContacts_resume (Rejected ''offline'') initial_state)))"
proof -
  have r: "run [Resolve (Rejected ''offline''), EndReached, Press 9, Refresh] initial_state
     = Some (fetchContacts_begin (fetchContacts_resume (Rejected ''offline'') initial_state))"
    by (simp add: resume_fields begin_fields fetched_records_def initial_state_def
          mockContacts_def)
  from never_both_loading [OF r] r show ?thesis by blast
qed

text \<open>
  C7. Once \<^verbatim>\<open>hasMoreData\<close> is false it stays false: after any single event, enabled or
  not, and at the end of any run of events.
\<close>

theorem hasMoreData_never_returns:
  assumes "\<not> hasMoreData s"
  shows "\<not> hasMoreData (apply_event e s) \<and> (run es s = Some t \<longrightarrow> \<not> hasMoreData t)"
  using assms hasMoreData_step hasMoreData_run by blast

theorem hasMoreData_never_returns_witness:
  "\<not> hasMoreData (fetchContacts_resume (Response 200 (Parsed (JArr []))) initial_state)
   \<and> run [EndReached, Refresh, Resolve (Rejected ''offline''), Refresh]
        (fetchContacts_resume (Response 200 (Parsed (JArr []))) initial_state)
      = Some (fetchContacts_begin (fetchContacts_resume (Rejected ''offline'')
          (fetchContacts_begin (fetchContacts_resume (Response 200 (Parsed (JArr []))) initial_state))))
   \<and> \<not> hasMoreData (fetchContacts_begin (fetchContacts_resume (Rejected ''offline'')
          (fetchContacts_begin (fetchContacts_resume (Response 200 (Parsed (JArr []))) initial_state))))"
proof -
  let ?s = "fetchContacts_resume (Response 200 (Parsed (JArr []))) initial_state"
  let ?t = "fetchContacts_begin
              (fetchContacts_resume (Rejected ''offline'') (fetchContacts_begin ?s))"
  have h: "\<not> hasMoreData ?s" by (simp add: resume_fields)
  have r: "run [EndReached, Refresh, Resolve (Rejected ''offline''), Refresh] ?s = Some ?t"
    by (simp add: resume_fields begin_fields fetched_records_def ok_def initial_state_def
          mounted_def)
  from hasMoreData_never_returns
         [OF h, of EndReached "[EndReached, Refresh, Resolve (Rejected ''offline''), Refresh]" ?t]
       r h
  show ?thesis by blast
qed

text \<open>
  C8, as stated, fails: the mapping stores the ids the response carries, and a response
  with a repeated id yields a reachable collection with a repeated id.
\<close>

theorem duplicate_ids_counterexample:
  "run [Resolve (Response 200 (Parsed (JArr
          [JObj [(''id'', JNum 1), (''name'', JStr ''Leanne Graham''), (''phone'', JStr ''1-770-736-8031'')],
           JObj [(''id'', JNum 1), (''name'', JStr ''Ervin Howell''), (''phone'', JStr ''010-692-6593'')]])))]
       initial_state
     = Some \<lparr>contacts = [mk_user ''1'' ''Leanne Graham'' ''1-770-736-8031'',
                          mk_user ''1'' ''Ervin Howell'' ''010-692-6593''],
             loading = False, loadingMore = False, hasMoreData = False,
             inFlight = 0, timers = []\<rparr>
   \<and> \<not> distinct (map id_field [mk_user ''1'' ''Leanne Graham'' ''1-770-736-8031'',
                                mk_user ''1'' ''Ervin Howell'' ''010-692-6593''])"
  by (simp add: initial_state_def mounted_def fetchContacts_begin_def fetchContacts_resume_def
        ok_def string_of_int_def string_of_nat.simps digit_char_def mk_user_def)


text \<open>
  C8, amended. In every reachable state the ids of the collection are pairwise distinct,
  provided every fetch completion of the session stored a collection with pairwise distinct
  ids (which the fallback always does).
\<close>

theorem ids_distinct_if_responses_distinct:
  assumes "run es initial_state = Some s" and "list_all distinct_response es"
  shows "unique_ids (contacts s)"
proof (cases "list_ex completes es")
  case True
  with session_invariant [OF assms(1)] obtain out where
    mem: "Resolve out \<in> set es" and c: "contacts s = fetched_records out"
    by auto
  from assms(2) mem have "distinct_response (Resolve out)"
    unfolding list_all_iff by blast
  with c show ?thesis by simp
next
  case False
  with session_invariant [OF assms(1)] have "contacts s = []" by simp
  then show ?thesis by (simp add: unique_ids_def)
qed

theorem ids_distinct_if_responses_distinct_witness:
  "run [Resolve (Response 200 (Parsed (JArr
            [JObj [(''id'', JNum 1), (''name'', JStr ''Leanne Graham'')],
             JObj [(''id'', JNum 2), (''name'', JStr ''Ervin Howell'')]]))),
        Refresh, Resolve (Rejected ''offline'')] initial_state
     = Some \<lparr>contacts = mockContacts, loading = False, loadingMore = False,
             hasMoreData = False, inFlight = 0, timers = []\<rparr>
   \<and> list_all distinct_response
       [Resolve (Response 200 (Parsed (JArr
            [JObj [(''id'', JNum 1), (''name'', JStr ''Leanne Graham'')],
             JObj [(''id'', JNum 2), (''name'', JStr ''Ervin Howell'')]]))),
        Refresh, Resolve (Rejected ''offline'')]
   \<and> unique_ids (contacts \<lparr>contacts = mockContacts, loading = False, loadingMore = False,
             hasMoreData = False, inFlight = 0, timers = []\<rparr>)"
proof -
  have r: "run [Resolve (Response 200 (Parsed (JArr
            [JObj [(''id'', JNum 1), (''name'', JStr ''Leanne Graham'')],
             JObj [(''id'', JNum 2), (''name'', JStr ''Ervin Howell'')]]))),
        Refresh, Resolve (Rejected ''offline'')] initial_state
     = Some \<lparr>contacts = mockContacts, loading = False, loadingMore = False,
             hasMoreData = False, inFlight = 0, timers = []\<rparr>"
    by (simp add: initial_state_def mounted_def fetchContacts_begin_def
          fetchContacts_resume_def ok_def string_of_int_def string_of_nat.simps digit_char_def)
  have d: "list_all distinct_response
       [Resolve (Response 200 (Parsed (JArr
            [JObj [(''id'', JNum 1), (''name'', JStr ''Leanne Graham'')],
             JObj [(''id'', JNum 2), (''name'', JStr ''Ervin Howell'')]]))),
        Refresh, Resolve (Rejected ''offline'')]"
    by (simp add: fetched_records_def unique_ids_def ok_def string_of_int_def
          string_of_nat.simps digit_char_def mockContacts_def mk_user_def)
  from ids_distinct_if_responses_distinct [OF r d] r d show ?thesis by blast
qed

text \<open>
  C9. A refresh runs \<^verbatim>\<open>fetchContacts\<close>: the call sets \<^verbatim>\<open>loading\<close> and leaves the
  collection alone; the completion clears \<^verbatim>\<open>loading\<close> and stores the mapped response or
  the mock list, whatever the collection held before.
\<close>

theorem refresh_replaces:
  "apply_event Refresh s = fetchContacts_begin s
   \<and> loading (fetchContacts_begin s)
   \<and> contacts (fetchContacts_begin s) = contacts s
   \<and> \<not> loading (fetchContacts_resume out t)
   \<and> contacts (fetchContacts_resume out t)
       = (case fetchContacts_try out of Inr cs \<Rightarrow> cs | Inl err \<Rightarrow> mockContacts)
   \<and> contacts (fetchContacts_resume out (t\<lparr>contacts := old\<rparr>))
       = contacts (fetchContacts_resume out t)"
  by (simp add: resume_fields begin_fields fetched_records_def)

theorem refresh_replaces_witness:
  "loading (fetchContacts_begin
       (mounted\<lparr>contacts := additionalContacts 0, loading := False, hasMoreData := False\<rparr>))
   \<and> \<not> loading (fetchContacts_resume (Response 500 (Parsed JNull))
         (fetchContacts_begin
           (mounted\<lparr>contacts := additionalContacts 0, loading := False, hasMoreData := False\<rparr>)))
   \<and> contacts (fetchContacts_resume (Response 500 (Parsed JNull))
         (fetchContacts_begin
           (mounted\<lparr>contacts := additionalContacts 0, loading := False, hasMoreData := False\<rparr>)))
       = mockContacts"
proof -
  let ?s = "mounted\<lparr>contacts := additionalContacts 0, loading := False,
                      hasMoreData := False\<rparr>"
  from refresh_replaces [of ?s "Response 500 (Parsed JNull)" "fetchContacts_begin ?s"]
  show ?thesis by (simp add: ok_def)
qed

text \<open>
  C10. Every completion of \<^verbatim>\<open>fetchContacts\<close> leaves \<^verbatim>\<open>hasMoreData\<close> false. In a
  session, once a completion has happened \<^verbatim>\<open>hasMoreData\<close> is false and
  \<^verbatim>\<open>loadMoreContacts\<close> and the end-of-list signal change nothing; the list is shown only
  after a completion; no callback is ever scheduled, and the collection is always empty or
  exactly what one completion of the session stored.
\<close>

theorem pagination_unreachable:
  assumes "run es initial_state = Some s"
  shows "\<not> hasMoreData (fetchContacts_resume out t)
       \<and> (list_ex completes es \<longrightarrow>
            \<not> hasMoreData s \<and> loadMoreContacts s = s \<and> apply_event EndReached s = s)
       \<and> (\<not> loading s \<longrightarrow> list_ex completes es)
       \<and> timers s = [] \<and> \<not> loadingMore s \<and> \<not> enabled Timeout s
       \<and> (contacts s = []
            \<or> (\<exists>out. Resolve out \<in> set es \<and> contacts s = fetched_records out))"
proof -
  note inv = session_invariant [OF assms]
  have "\<not> hasMoreData (fetchContacts_resume out t)"
    by (simp add: resume_fields)
  moreover have "list_ex completes es \<longrightarrow>
            \<not> hasMoreData s \<and> loadMoreContacts s = s \<and> apply_event EndReached s = s"
    using inv by (auto simp: loadMoreContacts_def)
  moreover have "\<not> loading s \<longrightarrow> list_ex completes es"
    using inv by (auto split: if_splits)
  moreover have "timers s = []" "\<not> loadingMore s" "\<not> enabled Timeout s"
    using inv by simp_all
  moreover have "contacts s = []
      \<or> (\<exists>out. Resolve out \<in> set es \<and> contacts s = fetched_records out)"
    using inv by (auto split: if_splits)
  ultimately show ?thesis by blast
qed

theorem pagination_unreachable_witness:
  "run [Resolve (Response 503 (Parsed JNull)), EndReached, Press 3, Refresh,
        Resolve (Response 200 (Parsed (JArr []))), EndReached] initial_state
     = Some \<lparr>contacts = [], loading = False, loadingMore = False, hasMoreData = False,
             inFlight = 0, timers = []\<rparr>
   \<and> list_ex completes [Resolve (Response 503 (Parsed JNull)), EndReached, Press 3, Refresh,
        Resolve (Response 200 (Parsed (JArr []))), EndReached]
   \<and> \<not> loading \<lparr>contacts = [], loading = False, loadingMore = False, hasMoreData = False,
             inFlight = 0, timers = []\<rparr>
   \<and> \<not> hasMoreData \<lparr>contacts = [], loading = False, loadingMore = False,
             hasMoreData = False, inFlight = 0, timers = []\<rparr>
   \<and> loadMoreContacts \<lparr>contacts = [], loading = False, loadingMore = False,
             hasMoreData = False, inFlight = 0, timers = []\<rparr>
      = \<lparr>contacts = [], loading = False, loadingMore = False, hasMoreData = False,
             inFlight = 0, timers = []\<rparr>"
proof -
  have r: "run [Resolve (Response 503 (Parsed JNull)), EndReached, Press 3, Refresh,
        Resolve (Response 200 (Parsed (JArr []))), EndReached] initial_state
     = Some \<lparr>contacts = [], loading = False, loadingMore = False, hasMoreData = False,
             inFlight = 0, timers = []\<rparr>"
    by (simp add: initial_state_def mounted_def fetchContacts_begin_def
          fetchContacts_resume_def ok_def mockContacts_def)
  have c: "list_ex completes [Resolve (Response 503 (Parsed JNull)), EndReached, Press 3,
        Refresh, Resolve (Response 200 (Parsed (JArr []))), EndReached]"
    by simp
  from pagination_unreachable [OF r] r c show ?thesis by simp
qed

end
